theory Spec2Isabelle
  imports Complex_Main "HOL-Library.Log_Nat"
begin

section \<open>Python and numpy primitives used by the source\<close>

text \<open>
  Integers are Python's unbounded ints. A double is modelled as the real number it
  denotes, and every arithmetic operation of the source that yields a double is followed
  by \<open>fl\<close>, the rounding to the nearest double (defined below). Every exception the
  source can raise is a value of \<open>py_error\<close>.
\<close>

datatype py_error =
    ValueError | IndexError | UnboundLocalError | ZeroDivisionError | TypeError | PygameError

text \<open>\<^verbatim>\<open>range(start, stop, step)\<close>: a zero step raises ValueError.\<close>

definition py_range :: "int \<Rightarrow> int \<Rightarrow> int \<Rightarrow> py_error + int list" where
  "py_range start stop step =
     (if step = 0 then Inl ValueError
      else if 0 < step then
        Inr (map (\<lambda>k. start + int k * step)
               [0..<nat ((stop - start + step - 1) div step)])
      else
        Inr (map (\<lambda>k. start + int k * step)
               [0..<nat ((start - stop - step - 1) div (- step))]))"

text \<open>A slice bound of \<^verbatim>\<open>xs[a:b]\<close>: negative bounds count from the end, all are clipped.\<close>

definition slice_bound :: "nat \<Rightarrow> int \<Rightarrow> nat" where
  "slice_bound n a = (if a < 0 then nat (max (a + int n) 0) else min (nat a) n)"

definition py_slice :: "'a list \<Rightarrow> int \<Rightarrow> int \<Rightarrow> 'a list" where
  "py_slice xs a b =
     (let lo = slice_bound (length xs) a; hi = slice_bound (length xs) b
      in take (hi - lo) (drop lo xs))"

text \<open>\<^verbatim>\<open>int(x)\<close> on a float truncates toward zero.\<close>

definition py_int :: "real \<Rightarrow> int" where
  "py_int x = (if 0 \<le> x then \<lfloor>x\<rfloor> else \<lceil>x\<rceil>)"

text \<open>
  Rounding to the nearest double, ties to even: 53 significant bits. \<open>binade x\<close> is the
  exponent \<open>e\<close> with \<open>2 ^ e \<le> |x| < 2 ^ (e + 1)\<close>, found with \<open>bitlen\<close> on the integer part
  of \<open>|x|\<close> or of its inverse. The exponent range of doubles is not bounded here: the
  values of this program stay far from the largest and the smallest doubles.
\<close>

definition round_even :: "real \<Rightarrow> int" where
  "round_even x =
     (let f = \<lfloor>x\<rfloor>; d = x - real_of_int f
      in if d < 1 / 2 then f else if 1 / 2 < d then f + 1 else if even f then f else f + 1)"

definition binade :: "real \<Rightarrow> int" where
  "binade x =
     (if 1 \<le> \<bar>x\<bar> then bitlen \<lfloor>\<bar>x\<bar>\<rfloor> - 1 else - bitlen (\<lceil>1 / \<bar>x\<bar>\<rceil> - 1))"

definition pow2 :: "int \<Rightarrow> real" where
  "pow2 e = (if 0 \<le> e then 2 ^ nat e else 1 / 2 ^ nat (- e))"

definition fl :: "real \<Rightarrow> real" where
  "fl x =
     (if x = 0 then 0
      else let e = binade x - 52 in real_of_int (round_even (x / pow2 e)) * pow2 e)"

text \<open>
  \<^verbatim>\<open>sum(xs)\<close> over doubles: the entries are added from left to right, starting from 0,
  and every partial sum is rounded.
\<close>

definition py_sum :: "real list \<Rightarrow> real" where
  "py_sum xs = foldl (\<lambda>acc x. fl (acc + x)) 0 xs"

text \<open>
  The relative error of one rounding is at most \<open>2 ^ - 53\<close>. \<open>rounded k x y\<close> says that
  \<open>x\<close> is the exact value \<open>y \<ge> 0\<close> up to \<open>k\<close> such errors.
\<close>

definition unit_roundoff :: real where
  "unit_roundoff = 1 / 2 ^ 53"

definition rounded :: "nat \<Rightarrow> real \<Rightarrow> real \<Rightarrow> bool" where
  "rounded k x y =
     (y * (1 - unit_roundoff) ^ k \<le> x \<and> x \<le> y * (1 + unit_roundoff) ^ k)"

text \<open>\<^verbatim>\<open>np.hanning(M)\<close> has \<open>M\<close> entries, and none when \<open>M < 1\<close>.\<close>

definition hanning_len :: "int \<Rightarrow> nat" where
  "hanning_len M = (if M < 1 then 0 else nat M)"

text \<open>The length of the elementwise product of two 1-D arrays (numpy broadcasting).\<close>

definition np_broadcast :: "nat \<Rightarrow> nat \<Rightarrow> py_error + nat" where
  "np_broadcast m n =
     (if m = n then Inr m else if m = 1 then Inr n else if n = 1 then Inr m
      else Inl ValueError)"

text \<open>
  A 2-D array is kept as the list of its columns. \<open>np_shape\<close> is \<^verbatim>\<open>.shape\<close>,
  \<open>np_len\<close> is \<^verbatim>\<open>len\<close> (the first dimension) and \<open>np_size\<close> is \<^verbatim>\<open>.size\<close>.
\<close>

type_synonym matrix = "real list list"

definition np_shape :: "matrix \<Rightarrow> nat \<times> nat" where
  "np_shape m = (case m of [] \<Rightarrow> (0, 0) | c # _ \<Rightarrow> (length c, length m))"

definition np_len :: "matrix \<Rightarrow> nat" where
  "np_len m = fst (np_shape m)"

definition np_size :: "matrix \<Rightarrow> nat" where
  "np_size m = fst (np_shape m) * snd (np_shape m)"

text \<open>\<^verbatim>\<open>np.hstack((a, b))\<close>: the row counts must agree.\<close>

definition np_hstack :: "matrix \<Rightarrow> matrix \<Rightarrow> py_error + matrix" where
  "np_hstack a b = (if np_len a = np_len b then Inr (a @ b) else Inl ValueError)"

text \<open>
  \<^verbatim>\<open>np.fft.fftfreq(n, d)\<close>: the integers \<open>0, \<dots>, (n - 1) div 2, - (n div 2), \<dots>, - 1\<close>
  times \<^verbatim>\<open>1.0 / (n * d)\<close>.
\<close>

definition fftfreq :: "int \<Rightarrow> real \<Rightarrow> real list" where
  "fftfreq n d =
     map (\<lambda>k. fl (real_of_int k * fl (1 / fl (real_of_int n * d))))
       ([0..(n - 1) div 2] @ [- (n div 2)..- 1])"

section \<open>The spectrogram engine\<close>

text \<open>
  The magnitude of bin \<open>k\<close> of the discrete Fourier transform of a Hann-tapered segment
  is a parameter \<open>bm W segment k\<close>: the transform returns as many bins as the tapered
  segment has entries, and an empty input raises ValueError.
\<close>

type_synonym bin_magnitude = "int \<Rightarrow> real list \<Rightarrow> nat \<Rightarrow> real"

fun fft_frames :: "bin_magnitude \<Rightarrow> real list \<Rightarrow> int \<Rightarrow> int list \<Rightarrow> py_error + matrix" where
  "fft_frames bm signal window_size [] = Inr []"
| "fft_frames bm signal window_size (start # rest) =
     (let segment = py_slice signal start (start + window_size) in
      case np_broadcast (length segment) (hanning_len window_size) of
        Inl e \<Rightarrow> Inl e
      | Inr n \<Rightarrow>
          if n = 0 then Inl ValueError
          else
            let fft_result = map (bm window_size segment) [0..<n];
                magnitude = py_slice fft_result 0 (window_size div 2)
            in (case fft_frames bm signal window_size rest of
                  Inl e \<Rightarrow> Inl e
                | Inr spectrogram \<Rightarrow> Inr (magnitude # spectrogram)))"

definition standard_fft_spectrogram ::
  "bin_magnitude \<Rightarrow> real list \<Rightarrow> int \<Rightarrow> int \<Rightarrow> int \<Rightarrow>
     py_error + (matrix \<times> real list \<times> real list)" where
  "standard_fft_spectrogram bm signal sample_rate window_size step_size =
     (case py_range 0 (int (length signal) - window_size) step_size of
        Inl e \<Rightarrow> Inl e
      | Inr starts \<Rightarrow>
          (case fft_frames bm signal window_size starts of
             Inl e \<Rightarrow> Inl e
           | Inr spectrogram \<Rightarrow>
               if spectrogram = [] then Inl IndexError
               else if sample_rate = 0 then Inl ZeroDivisionError
               else
                 Inr (spectrogram,
                      map (\<lambda>j. fl (real j
                                    * fl (real_of_int step_size / real_of_int sample_rate)))
                        [0..<snd (np_shape spectrogram)],
                      py_slice (fftfreq window_size (fl (1 / real_of_int sample_rate)))
                        0 (window_size div 2))))"

text \<open>
  The loop of \<open>process_full_audio\<close> over the chunk starts; the accumulator is
  (\<open>full_spectrogram\<close>, \<open>full_time\<close>, \<open>freq\<close>), with \<open>freq\<close> unbound (\<open>None\<close>) until
  a chunk has been analysed. A chunk shorter than the window ends the loop.
\<close>

fun chunk_loop ::
  "bin_magnitude \<Rightarrow> real list \<Rightarrow> int \<Rightarrow> int \<Rightarrow> int \<Rightarrow> int \<Rightarrow> int list \<Rightarrow>
     matrix \<times> real list \<times> real list option \<Rightarrow>
     py_error + (matrix \<times> real list \<times> real list option)" where
  "chunk_loop bm signal sample_rate window_size step_size chunk_size [] acc = Inr acc"
| "chunk_loop bm signal sample_rate window_size step_size chunk_size (i # rest)
     (full_spectrogram, full_time, freq0) =
     (let chunk = py_slice signal i (i + chunk_size) in
      if int (length chunk) < window_size then Inr (full_spectrogram, full_time, freq0)
      else
        case standard_fft_spectrogram bm chunk sample_rate window_size step_size of
          Inl e \<Rightarrow> Inl e
        | Inr (spectrogram, time, freq) \<Rightarrow>
            (case (if np_len full_spectrogram = 0 then Inr spectrogram
                   else np_hstack full_spectrogram spectrogram) of
               Inl e \<Rightarrow> Inl e
             | Inr full_spectrogram' \<Rightarrow>
                 let shifted =
                       map (\<lambda>t. fl (t + fl (real_of_int i / real_of_int sample_rate))) time;
                     full_time' = (if length full_time = 0 then shifted
                                   else full_time @ shifted)
                 in chunk_loop bm signal sample_rate window_size step_size chunk_size rest
                      (full_spectrogram', full_time', Some freq)))"

definition process_full_audio ::
  "bin_magnitude \<Rightarrow> real list \<Rightarrow> int \<Rightarrow> int \<Rightarrow> int \<Rightarrow> real \<Rightarrow>
     py_error + (matrix \<times> real list \<times> real list)" where
  "process_full_audio bm signal sample_rate window_size step_size chunk_duration_sec =
     (let chunk_size = py_int (fl (chunk_duration_sec * real_of_int sample_rate)) in
      case py_range 0 (int (length signal)) chunk_size of
        Inl e \<Rightarrow> Inl e
      | Inr starts \<Rightarrow>
          (case chunk_loop bm signal sample_rate window_size step_size chunk_size starts
                  ([], [], None) of
             Inl e \<Rightarrow> Inl e
           | Inr (full_spectrogram, full_time, None) \<Rightarrow> Inl UnboundLocalError
           | Inr (full_spectrogram, full_time, Some freq) \<Rightarrow>
               Inr (full_spectrogram, full_time, freq)))"

section \<open>The viewer session\<close>

text \<open>
  The fields of \<open>SpectrogramWindow\<close> that the handlers read and write. The toolkit,
  the plotting library and the audio mixer are outside the program: what they return is
  an argument of the handler that asks for it (\<open>now\<close> for \<^verbatim>\<open>time.time()\<close>,
  \<open>busy\<close> for \<^verbatim>\<open>get_busy()\<close>, \<open>get_pos\<close>, \<open>mixer_ok\<close> for "the mixer calls of this
  handler raise no \<^verbatim>\<open>pygame.error\<close>", \<open>scaled\<close> for the size of the pixmap that
  \<^verbatim>\<open>QPixmap.scaled\<close> returns, \<open>plot\<close> for the rendered figure and its axes box).
  What a handler shows to the user is returned as a list of \<open>ui_event\<close>s, and an
  exception that leaves the handler as \<open>Some e\<close>.
\<close>

record image =
  img_width :: int
  img_height :: int

record data_area_mapping =
  x0 :: real
  x1 :: real
  width :: real

datatype message =
    NeedFile | SpectrogramFailed | ImageFailed | AudioLoadFailed | PlaybackFailed | SeekFailed

datatype ui_event =
    MessageCritical message
  | ShowPixmap int int
  | MarkerLine int
  | SliderValue int
  | ScrollValue int
  | TimerStart
  | TimerStop

record session =
  audio_file :: "string option"
  spectrogram_image :: "image option"
  spectrogram :: "matrix option"
  time :: "real list option"
  freq :: "real list option"
  is_playing :: bool
  play_position :: real
  total_duration :: real
  image_width :: int
  position_buffer :: "real list"
  log_counter :: int
  data_area :: "data_area_mapping option"
  zoom_factor :: real
  play_start_time :: real

type_synonym outcome = "session \<times> ui_event list \<times> py_error option"

type_synonym scaler = "image \<Rightarrow> int \<Rightarrow> int \<Rightarrow> int \<times> int"

type_synonym plotter = "matrix \<Rightarrow> real list \<Rightarrow> real list \<Rightarrow> real \<Rightarrow> image \<times> data_area_mapping"

text \<open>The state that \<open>__init__\<close> sets up.\<close>

definition init_session :: session where
  "init_session =
     \<lparr>audio_file = None, spectrogram_image = None, spectrogram = None, time = None,
      freq = None, is_playing = False, play_position = 0, total_duration = 0,
      image_width = 800, position_buffer = [], log_counter = 0, data_area = None,
      zoom_factor = 1, play_start_time = 0\<rparr>"

text \<open>\<^verbatim>\<open>deque(maxlen=5).append(x)\<close>: the entries beyond the last five leave at the left.\<close>

definition maxlen :: nat where
  "maxlen = 5"

definition deque_append :: "real \<Rightarrow> real list \<Rightarrow> real list" where
  "deque_append x buf = (let b = buf @ [x] in drop (length b - maxlen) b)"

text \<open>The truth value of \<^verbatim>\<open>self.audio_file\<close>: neither \<open>None\<close> nor the empty string.\<close>

definition file_loaded :: "session \<Rightarrow> bool" where
  "file_loaded s = (case audio_file s of None \<Rightarrow> False | Some p \<Rightarrow> p \<noteq> [])"

definition create_spectrogram_image ::
  "plotter \<Rightarrow> matrix \<Rightarrow> real list \<Rightarrow> real list \<Rightarrow> int \<Rightarrow> (image \<times> data_area_mapping) option" where
  "create_spectrogram_image plot spectrogram0 time0 freq0 width_pixels =
     (if np_size spectrogram0 = 0 \<or> length time0 = 0 \<or> length freq0 = 0 then None
      else
        let fig_width = max 12 (min (fl (real_of_int width_pixels / 100)) 50)
        in Some (plot spectrogram0 time0 freq0 fig_width))"

definition update_spectrogram_display :: "scaler \<Rightarrow> session \<Rightarrow> ui_event list" where
  "update_spectrogram_display scaled s =
     (case spectrogram_image s of
        None \<Rightarrow> []
      | Some img \<Rightarrow>
          let (w, h) = scaled img (py_int (fl (real_of_int (image_width s) * zoom_factor s)))
                         (py_int (fl (real_of_int (img_height img) * zoom_factor s)))
          in [ShowPixmap w h])"

text \<open>
  \<open>load_audio\<close>: \<open>file_path\<close> is what the file dialog returned (empty when the dialog
  was cancelled), \<open>audio_data\<close> and \<open>sample_rate\<close> are what \<open>read_audio_file\<close> returned
  for it. An exception of the engine leaves the handler with the assignments made so far.
  The body is written over the function it calls at line 224, \<open>load_audio_with engine\<close>,
  and \<open>load_audio\<close> is that body with \<open>process_full_audio\<close>.
\<close>

type_synonym engine =
  "real list \<Rightarrow> int \<Rightarrow> int \<Rightarrow> int \<Rightarrow> real \<Rightarrow> py_error + (matrix \<times> real list \<times> real list)"

definition load_audio_with ::
  "engine \<Rightarrow> plotter \<Rightarrow> string \<Rightarrow> real list \<Rightarrow> int \<Rightarrow> bool \<Rightarrow> session \<Rightarrow> outcome" where
  "load_audio_with engine plot file_path audio_data sample_rate mixer_ok s =
     (if file_path = [] then (s, [], None)
      else
        let s1 = s\<lparr>audio_file := Some file_path\<rparr> in
        case engine audio_data sample_rate 1024 512 4 of
          Inl e \<Rightarrow> (s1, [], Some e)
        | Inr (sp, t, f) \<Rightarrow>
            let s2 = s1\<lparr>spectrogram := Some sp, time := Some t, freq := Some f\<rparr> in
            if np_size sp = 0 \<or> length t = 0 then (s2, [MessageCritical SpectrogramFailed], None)
            else
              let s3 = s2\<lparr>total_duration := last t\<rparr>;
                  s4 = s3\<lparr>image_width :=
                            max 800 (py_int (fl (fl (500 * total_duration s3) / 10))),
                          zoom_factor := 1\<rparr>
              in (case create_spectrogram_image plot sp t f (image_width s4) of
                    None \<Rightarrow>
                      (s4\<lparr>spectrogram_image := None, data_area := None\<rparr>,
                       [MessageCritical ImageFailed], None)
                  | Some (img, da) \<Rightarrow>
                      let s5 = s4\<lparr>spectrogram_image := Some img, data_area := Some da\<rparr>;
                          shown = [ShowPixmap (img_width img) (img_height img),
                                   ScrollValue 0, SliderValue 0]
                      in if mixer_ok then (s5, shown, None)
                         else (s5\<lparr>audio_file := None\<rparr>,
                               shown @ [MessageCritical AudioLoadFailed], None)))"

definition load_audio ::
  "plotter \<Rightarrow> bin_magnitude \<Rightarrow> string \<Rightarrow> real list \<Rightarrow> int \<Rightarrow> bool \<Rightarrow> session \<Rightarrow> outcome" where
  "load_audio plot bm = load_audio_with (process_full_audio bm) plot"

definition toggle_playback :: "real \<Rightarrow> int \<Rightarrow> bool \<Rightarrow> session \<Rightarrow> outcome" where
  "toggle_playback now get_pos mixer_ok s =
     (if \<not> file_loaded s then (s, [MessageCritical NeedFile], None)
      else if is_playing s then
        (if mixer_ok then (s\<lparr>is_playing := False\<rparr>, [TimerStop], None)
         else (s, [], Some PygameError))
      else if \<not> mixer_ok then (s, [MessageCritical PlaybackFailed], None)
      else if get_pos = - 1 then
        (s\<lparr>play_start_time := now, position_buffer := [], is_playing := True\<rparr>,
         [TimerStart], None)
      else
        (s\<lparr>play_start_time := fl (now - play_position s), is_playing := True\<rparr>,
         [TimerStart], None))"

definition stop_playback :: "scaler \<Rightarrow> session \<Rightarrow> outcome" where
  "stop_playback scaled s =
     (if file_loaded s then
        let s1 = s\<lparr>is_playing := False, play_position := 0, position_buffer := []\<rparr>
        in (s1,
            [TimerStop]
            @ (if spectrogram s1 \<noteq> None \<and> spectrogram_image s1 \<noteq> None
               then update_spectrogram_display scaled s1 else [])
            @ [SliderValue 0],
            None)
      else (s, [], None))"

text \<open>
  The zoom factor is kept as the exact product of its steps of 1.2: its values are
  compared only with the bounds 0.5 and 5, from which the nearest doubles are as far.
\<close>

definition zoom_in :: "scaler \<Rightarrow> session \<Rightarrow> outcome" where
  "zoom_in scaled s =
     (if spectrogram_image s \<noteq> None then
        let s1 = s\<lparr>zoom_factor := min (zoom_factor s * 1.2) 5.0\<rparr>
        in (s1, update_spectrogram_display scaled s1, None)
      else (s, [], None))"

definition zoom_out :: "scaler \<Rightarrow> session \<Rightarrow> outcome" where
  "zoom_out scaled s =
     (if spectrogram_image s \<noteq> None \<and> zoom_factor s > 0.5 then
        let s1 = s\<lparr>zoom_factor := zoom_factor s / 1.2\<rparr>
        in (s1, update_spectrogram_display scaled s1, None)
      else (s, [], None))"

text \<open>The pixel column of the marker, lines 410 to 413 of the source.\<close>

definition marker_x_pos :: "real \<Rightarrow> real \<Rightarrow> data_area_mapping \<Rightarrow> int \<Rightarrow> int" where
  "marker_x_pos position max_time da pixmap_width =
     (let data_width_pixels = fl (real_of_int pixmap_width * width da);
          data_x0_pixels = fl (real_of_int pixmap_width * x0 da);
          x_pos = py_int (fl (fl (fl (position / max_time) * data_width_pixels)
                              + data_x0_pixels))
      in min (max x_pos 0) (pixmap_width - 1))"

text \<open>
  The part of \<open>update_play_position\<close> after the position is known: slider, marker and
  scrolling. \<open>x_pos\<close> is bound only when the marker is drawn.
\<close>

definition show_position :: "scaler \<Rightarrow> int \<Rightarrow> session \<Rightarrow> outcome" where
  "show_position scaled scroll_width s =
     (let slider = (if total_duration s > 0
                    then [SliderValue
                            (py_int (fl (fl (play_position s / total_duration s) * 1000)))]
                    else []);
          s1 = s\<lparr>log_counter := log_counter s + 1\<rparr>
      in case spectrogram_image s1 of
           None \<Rightarrow> (s1, slider, Some TypeError)
         | Some img \<Rightarrow>
             let (pw, ph) =
                   scaled img (py_int (fl (real_of_int (image_width s1) * zoom_factor s1)))
                     (py_int (fl (real_of_int (img_height img) * zoom_factor s1)))
             in (case time s1 of
                  None \<Rightarrow> (s1, slider, Some TypeError)
                | Some T \<Rightarrow>
                    if T = [] then (s1, slider, Some IndexError)
                    else
                      let max_time = last T;
                          x_pos = (if max_time > 0 \<and> data_area s1 \<noteq> None
                                   then Some (marker_x_pos (play_position s1) max_time
                                                (the (data_area s1)) pw)
                                   else None);
                          drawn = slider
                                  @ (case x_pos of None \<Rightarrow> [] | Some x \<Rightarrow> [MarkerLine x])
                                  @ [ShowPixmap pw ph]
                      in if max_time > 0 \<and> pw - scroll_width > 0 then
                           (case x_pos of
                              None \<Rightarrow> (s1, drawn, Some UnboundLocalError)
                            | Some x \<Rightarrow>
                                let scroll_pos =
                                      py_int (fl (real_of_int x
                                                  - fl (real_of_int scroll_width / 2)))
                                in (s1,
                                    drawn @ [ScrollValue (min (max scroll_pos 0)
                                                            (pw - scroll_width))],
                                    None))
                         else (s1, drawn, None)))"

definition update_play_position :: "scaler \<Rightarrow> int \<Rightarrow> real \<Rightarrow> bool \<Rightarrow> session \<Rightarrow> outcome" where
  "update_play_position scaled scroll_width now busy s =
     (if is_playing s \<and> spectrogram s \<noteq> None \<and> spectrogram_image s \<noteq> None then
        if busy then
          let s1 = s\<lparr>play_position := fl (now - play_start_time s)\<rparr> in
          if play_position s1 > total_duration s1 then
            stop_playback scaled (s1\<lparr>play_position := total_duration s1\<rparr>)
          else
            let s2 = s1\<lparr>position_buffer := deque_append (play_position s1) (position_buffer s1)\<rparr>;
                s3 = s2\<lparr>play_position :=
                          fl (py_sum (position_buffer s2)
                              / real (length (position_buffer s2)))\<rparr>
            in show_position scaled scroll_width s3
        else stop_playback scaled s
      else (s, [], None))"

text \<open>
  \<open>seek_position\<close>: \<open>now\<close> is the clock when \<open>play_start_time\<close> is set, \<open>now'\<close> and
  \<open>busy\<close> are what the nested \<open>update_play_position\<close> reads.
\<close>

definition seek_position ::
  "scaler \<Rightarrow> int \<Rightarrow> int \<Rightarrow> real \<Rightarrow> real \<Rightarrow> bool \<Rightarrow> bool \<Rightarrow> session \<Rightarrow> outcome" where
  "seek_position scaled scroll_width val now now' busy mixer_ok s =
     (if file_loaded s \<and> total_duration s > 0 then
        let new_position = fl (fl (real_of_int val / 1000.0) * total_duration s);
            s1 = s\<lparr>play_position := new_position,
                   position_buffer := deque_append new_position []\<rparr>
        in if \<not> mixer_ok then (s1, [MessageCritical SeekFailed], None)
           else
             let s2 = s1\<lparr>play_start_time := fl (now - new_position)\<rparr>;
                 shown = update_spectrogram_display scaled s2;
                 (s3, evs, err) = update_play_position scaled scroll_width now' busy s2
             in (s3, shown @ evs, err)
      else (s, [], None))"

section \<open>Auxiliary notions for the engine's properties\<close>

text \<open>The number of frames \<^verbatim>\<open>range(0, len - W, H)\<close> yields for a positive hop.\<close>

definition frame_count :: "nat \<Rightarrow> int \<Rightarrow> int \<Rightarrow> nat" where
  "frame_count len W H = nat ((int len - W + H - 1) div H)"


text \<open>What separates two consecutive entries of the time axis.\<close>

definition time_step :: "int \<Rightarrow> int \<Rightarrow> int \<Rightarrow> real \<Rightarrow> real \<Rightarrow> bool" where
  "time_step sr W H x y =
     (y - x = real_of_int H / real_of_int sr
      \<or> (real_of_int W / real_of_int sr < y - x
          \<and> y - x \<le> real_of_int (W + H) / real_of_int sr))"

text \<open>The chunk starts \<^verbatim>\<open>range(0, len, chunk_size)\<close> for a positive chunk size.\<close>

definition chunk_starts :: "nat \<Rightarrow> int \<Rightarrow> int list" where
  "chunk_starts len cs = map (\<lambda>k. 0 + int k * cs) [0..<nat ((int len + cs - 1) div cs)]"

text \<open>A run of zoom actions, each applied to the state the previous one left.\<close>

datatype zoom_action = ZoomIn | ZoomOut

fun zoom_run :: "scaler \<Rightarrow> zoom_action list \<Rightarrow> session \<Rightarrow> session" where
  "zoom_run scaled [] s = s"
| "zoom_run scaled (ZoomIn # acts) s = zoom_run scaled acts (fst (zoom_in scaled s))"
| "zoom_run scaled (ZoomOut # acts) s = zoom_run scaled acts (fst (zoom_out scaled s))"


text \<open>
  A session in the middle of playback: a file of ten seconds, started at clock 0, with
  five positions in the smoothing buffer.
\<close>

definition playing_session :: session where
  "playing_session =
     \<lparr>audio_file = Some ''a.wav'',
      spectrogram_image = Some \<lparr>img_width = 1200, img_height = 600\<rparr>,
      spectrogram = Some [ [1, 1], [1, 1] ], time = Some [0, 10],
      freq = Some [0, 1], is_playing = True, play_position = 2, total_duration = 10,
      image_width = 800, position_buffer = [1, 2, 2, 2, 3], log_counter = 0,
      data_area = Some \<lparr>x0 = 1 / 8, x1 = 5 / 8, width = 1 / 2\<rparr>,
      zoom_factor = 1, play_start_time = 0\<rparr>"

text \<open>
  The signal cut into consecutive chunks of \<open>n\<close> samples, the last one possibly shorter;
  the processed chunks are the leading ones that hold at least one window.
\<close>

function chunks_of :: "nat \<Rightarrow> 'a list \<Rightarrow> 'a list list" where
  "chunks_of n xs = (if n = 0 \<or> xs = [] then [] else take n xs # chunks_of n (drop n xs))"
  by pat_completeness auto
termination
  by (relation "measure (\<lambda>(n, xs). length xs)") auto

declare chunks_of.simps [simp del]

definition processed_chunks :: "int \<Rightarrow> int \<Rightarrow> real list \<Rightarrow> real list list" where
  "processed_chunks window_size chunk_size signal =
     takeWhile (\<lambda>c. window_size \<le> int (length c)) (chunks_of (nat chunk_size) signal)"



text \<open>
  The marker column as the specification writes it, over exact reals:
  \<open>x0 * W + (p / maxTime) * (width * W)\<close>.
\<close>

definition marker_formula :: "real \<Rightarrow> real \<Rightarrow> data_area_mapping \<Rightarrow> int \<Rightarrow> real" where
  "marker_formula p max_time da pixmap_width =
     x0 da * real_of_int pixmap_width
     + (p / max_time) * (width da * real_of_int pixmap_width)"

section \<open>Rounding to doubles\<close>

lemma pow2_powi: "pow2 e = 2 powi e"
  by (simp add: pow2_def power_int_def power_divide inverse_eq_divide)

lemma pow2_pos: "0 < pow2 e"
  by (simp add: pow2_powi)

lemma pow2_shift: "pow2 (b - 52) = pow2 b / 2 ^ 52"
  by (simp add: pow2_powi power_int_diff)

lemma round_even_error: "\<bar>real_of_int (round_even x) - x\<bar> \<le> 1 / 2"
proof -
  have "real_of_int \<lfloor>x\<rfloor> \<le> x" "x < real_of_int \<lfloor>x\<rfloor> + 1" by linarith+
  then show ?thesis by (auto simp: round_even_def Let_def)
qed

lemma binade_le:
  assumes "x \<noteq> 0"
  shows "pow2 (binade x) \<le> \<bar>x\<bar>"
proof (cases "1 \<le> \<bar>x\<bar>")
  case True
  let ?n = "\<lfloor>\<bar>x\<bar>\<rfloor>"
  have n: "0 < ?n" using True by simp
  from bitlen_bounds[OF n] have "2 ^ nat (bitlen ?n - 1) \<le> ?n" by blast
  then have "real_of_int (2 ^ nat (bitlen ?n - 1)) \<le> real_of_int ?n" by (simp only: of_int_le_iff)
  then have "2 ^ nat (bitlen ?n - 1) \<le> \<bar>x\<bar>" by (simp add: le_floor_iff)
  moreover have "0 \<le> bitlen ?n - 1" using n by (simp add: bitlen_alt_def)
  ultimately show ?thesis using True by (simp add: binade_def pow2_def)
next
  case False
  let ?a = "\<bar>x\<bar>"
  let ?n = "\<lceil>1 / ?a\<rceil>"
  let ?k = "bitlen (?n - 1)"
  have a: "0 < ?a" "?a < 1" using assms False by simp_all
  then have "1 < 1 / ?a" by simp
  then have n: "0 < ?n - 1" by (simp add: less_ceiling_iff)
  from bitlen_bounds[OF n] have "?n - 1 < 2 ^ nat ?k" by blast
  then have "?n \<le> 2 ^ nat ?k" by simp
  then have "1 / ?a \<le> real_of_int (2 ^ nat ?k)" by (simp only: ceiling_le_iff)
  then have "1 / ?a \<le> 2 ^ nat ?k" by simp
  then have "1 \<le> 2 ^ nat ?k * ?a" using a(1) by (simp add: pos_divide_le_eq)
  then have le: "1 / 2 ^ nat ?k \<le> ?a" by (simp add: pos_divide_le_eq mult.commute)
  have k: "0 < ?k" using n by (simp add: bitlen_alt_def)
  show ?thesis using False le k by (simp add: binade_def pow2_def)
qed

lemma fl_zero [simp]: "fl 0 = 0"
  by (simp add: fl_def)

lemma fl_error: "\<bar>fl x - x\<bar> \<le> \<bar>x\<bar> * unit_roundoff"
proof (cases "x = 0")
  case True
  then show ?thesis by simp
next
  case False
  let ?e = "binade x - 52"
  let ?m = "x / pow2 ?e"
  have p: "0 < pow2 ?e" by (rule pow2_pos)
  have "fl x - x = (real_of_int (round_even ?m) - ?m) * pow2 ?e"
    using False p by (simp add: fl_def Let_def algebra_simps)
  then have "\<bar>fl x - x\<bar> = \<bar>real_of_int (round_even ?m) - ?m\<bar> * pow2 ?e"
    using p by (simp add: abs_mult)
  also have "\<dots> \<le> (1 / 2) * pow2 ?e"
    using round_even_error[of ?m] p by (intro mult_right_mono) simp_all
  also have "\<dots> = pow2 (binade x) / 2 ^ 53" by (simp add: pow2_shift)
  also have "\<dots> \<le> \<bar>x\<bar> / 2 ^ 53" using binade_le[OF False] by (simp add: divide_right_mono)
  finally show ?thesis by (simp add: unit_roundoff_def)
qed

lemma fl_rel:
  assumes "0 \<le> x"
  shows "x * (1 - unit_roundoff) \<le> fl x \<and> fl x \<le> x * (1 + unit_roundoff)"
  using fl_error[of x] assms by (simp add: abs_le_iff algebra_simps)


lemma unit_roundoff_bounds: "0 < unit_roundoff" "unit_roundoff < 1"
  by (simp_all add: unit_roundoff_def)

lemma rounded_nonneg: "0 \<le> y \<Longrightarrow> rounded k x y \<Longrightarrow> 0 \<le> x"
proof -
  assume a: "0 \<le> y" "rounded k x y"
  have "0 \<le> (1 - unit_roundoff) ^ k" using unit_roundoff_bounds by simp
  then have "0 \<le> y * (1 - unit_roundoff) ^ k" using a(1) by simp
  then show ?thesis using a(2) by (simp add: rounded_def)
qed

lemma rounded_refl: "rounded 0 y y"
  by (simp add: rounded_def)

lemma rounded_fl:
  assumes "0 \<le> y" and "rounded k x y"
  shows "rounded (Suc k) (fl x) y"
proof -
  have x: "0 \<le> x" using rounded_nonneg[OF assms] .
  note r = fl_rel[OF x]
  have u: "0 \<le> 1 - unit_roundoff" "0 \<le> 1 + unit_roundoff" using unit_roundoff_bounds by simp_all
  have "y * (1 - unit_roundoff) ^ Suc k = (y * (1 - unit_roundoff) ^ k) * (1 - unit_roundoff)"
    by simp
  also have "\<dots> \<le> x * (1 - unit_roundoff)"
    using assms(2) u(1) by (intro mult_right_mono) (simp_all add: rounded_def)
  finally have lo: "y * (1 - unit_roundoff) ^ Suc k \<le> fl x" using r by linarith
  have "x * (1 + unit_roundoff) \<le> (y * (1 + unit_roundoff) ^ k) * (1 + unit_roundoff)"
    using assms(2) u(2) by (intro mult_right_mono) (simp_all add: rounded_def)
  also have "\<dots> = y * (1 + unit_roundoff) ^ Suc k" by simp
  finally have hi: "fl x \<le> y * (1 + unit_roundoff) ^ Suc k" using r by linarith
  show ?thesis using lo hi by (simp add: rounded_def)
qed


lemma rounded_add:
  assumes "rounded k a b" and "rounded k c d"
  shows "rounded k (a + c) (b + d)"
  using assms by (simp add: rounded_def distrib_right)

lemma rounded_mono:
  assumes "0 \<le> y" and "k \<le> k'" and "rounded k x y"
  shows "rounded k' x y"
proof -
  have u: "0 \<le> 1 - unit_roundoff" "1 - unit_roundoff \<le> 1" "1 \<le> 1 + unit_roundoff"
    using unit_roundoff_bounds by simp_all
  have "(1 - unit_roundoff) ^ k' \<le> (1 - unit_roundoff) ^ k"
    using assms(2) u(1,2) by (rule power_decreasing)
  then have lo: "y * (1 - unit_roundoff) ^ k' \<le> y * (1 - unit_roundoff) ^ k"
    using assms(1) by (simp add: mult_left_mono)
  have "(1 + unit_roundoff) ^ k \<le> (1 + unit_roundoff) ^ k'"
    using u(3) assms(2) by (simp add: power_increasing)
  then have hi: "y * (1 + unit_roundoff) ^ k \<le> y * (1 + unit_roundoff) ^ k'"
    using assms(1) by (simp add: mult_left_mono)
  show ?thesis using assms(3) lo hi by (simp add: rounded_def)
qed

lemma small_power_bound:
  assumes "0 \<le> u" and "u \<le> 1 / 1000"
  shows "(1 + u) ^ 6 \<le> 1 + 7 * (u::real)"
proof -
  have "u * u \<le> u * (1 / 1000)" using assms by (intro mult_left_mono)
  then have u2: "u * u \<le> u / 1000" by simp
  have s: "(1 + u) ^ 2 \<le> 1 + (2 + 1 / 1000) * u"
    using u2 by (simp add: power2_eq_square algebra_simps)
  have "(1 + u) ^ 6 = ((1 + u) ^ 2) ^ 3" by (simp add: power_mult [symmetric])
  also have "\<dots> \<le> (1 + (2 + 1 / 1000) * u) ^ 3"
    using s assms(1) by (intro power_mono) simp_all
  also have "\<dots> \<le> 1 + 7 * u"
  proof -
    define v where "v = (2 + 1 / 1000) * u"
    have v: "0 \<le> v" "v \<le> 3 / 1000" "v \<le> (2 + 1 / 1000) * u"
      using assms by (simp_all add: v_def)
    have v2: "v * v \<le> v * (3 / 1000)" using v by (intro mult_left_mono) simp_all
    have "v * v * v \<le> (v * (3 / 1000)) * (3 / 1000)"
      using v v2 by (intro mult_mono) simp_all
    then have v3: "v * v * v \<le> v * (9 / 1000000)" by simp
    have "(1 + v) ^ 3 = 1 + 3 * v + 3 * (v * v) + v * v * v"
      by (simp add: power3_eq_cube algebra_simps)
    also have "\<dots> \<le> 1 + 3 * v + 3 * (v * (3 / 1000)) + v * (9 / 1000000)"
      using v2 v3 by linarith
    also have "\<dots> \<le> 1 + (7 / (2 + 1 / 1000)) * v" using v(1) by simp
    also have "\<dots> = 1 + 7 * u" by (simp add: v_def)
    finally show ?thesis by (simp add: v_def)
  qed
  finally show ?thesis .
qed

lemma rounded_error:
  assumes "0 \<le> y" and "k \<le> 6" and "rounded k x y"
  shows "\<bar>x - y\<bar> \<le> y * (7 * unit_roundoff)"
proof -
  from rounded_mono[OF assms] have r: "rounded 6 x y" .
  have "1 + real 6 * (- unit_roundoff) \<le> (1 + (- unit_roundoff)) ^ 6"
    using unit_roundoff_bounds by (intro Bernoulli_inequality) simp
  then have lo: "1 - 7 * unit_roundoff \<le> (1 - unit_roundoff) ^ 6"
    using unit_roundoff_bounds by simp
  have hi: "(1 + unit_roundoff) ^ 6 \<le> 1 + 7 * unit_roundoff"
    using small_power_bound[of unit_roundoff] by (simp add: unit_roundoff_def)
  have "y * (1 - 7 * unit_roundoff) \<le> y * (1 - unit_roundoff) ^ 6"
    using lo assms(1) by (rule mult_left_mono)
  moreover have "y * (1 + unit_roundoff) ^ 6 \<le> y * (1 + 7 * unit_roundoff)"
    using hi assms(1) by (rule mult_left_mono)
  ultimately have "y * (1 - 7 * unit_roundoff) \<le> x" "x \<le> y * (1 + 7 * unit_roundoff)"
    using r by (simp_all add: rounded_def)
  then show ?thesis by (simp add: abs_le_iff algebra_simps)
qed

text \<open>The chunk size of \<open>load_audio\<close>: four seconds at 44100 Hz.\<close>

lemma fl_176400 [simp]: "fl 176400 = 176400"
  by (simp add: fl_def binade_def pow2_def round_even_def compute_bitlen)

section \<open>Slices, ranges and frames\<close>

lemma length_py_slice_inside:
  "0 \<le> a \<Longrightarrow> a \<le> b \<Longrightarrow> b \<le> int (length xs) \<Longrightarrow> length (py_slice xs a b) = nat (b - a)"
proof -
  assume a: "0 \<le> a" "a \<le> b" "b \<le> int (length xs)"
  then have "slice_bound (length xs) a = nat a" "slice_bound (length xs) b = nat b"
    by (auto simp: slice_bound_def)
  then have "length (py_slice xs a b) = min (length xs - nat a) (nat b - nat a)"
    by (simp add: py_slice_def Let_def min.commute)
  also have "\<dots> = nat (b - a)" using a by linarith
  finally show ?thesis .
qed

lemma length_py_slice_prefix:
  "0 \<le> b \<Longrightarrow> length (py_slice xs 0 b) = min (nat b) (length xs)"
  by (auto simp: py_slice_def slice_bound_def Let_def min_def)

lemma py_range_pos:
  "0 < step \<Longrightarrow> py_range 0 stop step = Inr (map (\<lambda>k. int k * step) [0..<nat ((stop + step - 1) div step)])"
  by (simp add: py_range_def)

lemma ceil_div_bounds:
  fixes a b :: int
  assumes "0 < b"
  shows "a \<le> ((a + b - 1) div b) * b" and "((a + b - 1) div b) * b < a + b"
proof -
  have "(a + b - 1) = ((a + b - 1) div b) * b + (a + b - 1) mod b" by simp
  moreover have "0 \<le> (a + b - 1) mod b" "(a + b - 1) mod b < b" using assms by simp_all
  ultimately show "a \<le> ((a + b - 1) div b) * b" and "((a + b - 1) div b) * b < a + b"
    by linarith+
qed

lemma fft_frames_inside:
  assumes "1 \<le> W" and "\<forall>st\<in>set starts. 0 \<le> st \<and> st + W \<le> int (length chunk)"
  shows "\<exists>cols. fft_frames bm chunk W starts = Inr cols \<and> length cols = length starts
            \<and> (\<forall>c\<in>set cols. length c = nat (W div 2))"
  using assms(2)
proof (induction starts)
  case Nil
  then show ?case by simp
next
  case (Cons st rest)
  then obtain cols where c: "fft_frames bm chunk W rest = Inr cols" "length cols = length rest"
      "\<forall>c\<in>set cols. length c = nat (W div 2)" by auto
  have seg: "length (py_slice chunk st (st + W)) = nat W"
    using Cons.prems assms(1) by (simp add: length_py_slice_inside)
  have h: "hanning_len W = nat W" using assms(1) by (simp add: hanning_len_def)
  have nz: "nat W \<noteq> 0" using assms(1) by simp
  have m: "min (nat (W div 2)) (nat W) = nat (W div 2)" using assms(1) by simp
  show ?case using c seg h nz m assms(1)
    by (simp add: np_broadcast_def Let_def length_py_slice_prefix)
qed


lemma fft_frames_Cons_Inr:
  assumes "fft_frames bm chunk W (st # rest) = Inr cols"
  shows "1 \<le> W"
proof (rule ccontr)
  assume "\<not> 1 \<le> W"
  then have h: "hanning_len W = 0" by (simp add: hanning_len_def)
  show False using assms
    by (auto simp: h np_broadcast_def Let_def split: if_splits sum.splits)
qed

lemma int_div_le_zero:
  fixes a b :: int
  assumes "0 < b" and "a < b"
  shows "a div b \<le> 0"
proof -
  have "a div b \<le> (b - 1) div b" using assms by (intro zdiv_mono1) auto
  also have "(b - 1) div b = 0" using assms by (simp add: div_pos_pos_trivial)
  finally show ?thesis .
qed

lemma py_range_neg_empty:
  assumes "step < 0" and "0 \<le> stop"
  shows "py_range 0 stop step = Inr []"
proof -
  have "(0 - stop - step - 1) div (- step) \<le> 0"
  proof -
    have "0 - stop - step - 1 < - step" using assms by simp
    then show ?thesis using assms(1) by (intro int_div_le_zero) auto
  qed
  then show ?thesis using assms by (simp add: py_range_def)
qed

lemma standard_fft_Inr:
  assumes le: "W \<le> int (length chunk)"
    and ok: "standard_fft_spectrogram bm chunk sr W H = Inr (cols, tm, fq)"
  shows "1 \<le> W \<and> 0 < H \<and> sr \<noteq> 0 \<and> W < int (length chunk) \<and> cols \<noteq> []
         \<and> length cols = frame_count (length chunk) W H
         \<and> (\<forall>c\<in>set cols. length c = nat (W div 2))
         \<and> tm = map (\<lambda>j. fl (real j * fl (real_of_int H / real_of_int sr))) [0..<length cols]"
proof -
  from ok obtain starts where r: "py_range 0 (int (length chunk) - W) H = Inr starts"
    by (auto simp: standard_fft_spectrogram_def split: sum.splits)
  from ok r have f: "fft_frames bm chunk W starts = Inr cols" and ne: "cols \<noteq> []"
    and sr: "sr \<noteq> 0"
    by (auto simp: standard_fft_spectrogram_def split: sum.splits if_splits)
  from ok r f ne sr have tm: "tm = map (\<lambda>j. fl (real j * fl (real_of_int H / real_of_int sr)))
        [0..<snd (np_shape cols)]"
    by (auto simp: standard_fft_spectrogram_def)
  have sne: "starts \<noteq> []" using f ne by auto
  have H0: "H \<noteq> 0" using r by (auto simp: py_range_def split: if_splits)
  have Hpos: "0 < H"
  proof (rule ccontr)
    assume "\<not> 0 < H"
    then have "H < 0" using H0 by simp
    then have "py_range 0 (int (length chunk) - W) H = Inr []"
      using le by (intro py_range_neg_empty) auto
    then show False using r sne by simp
  qed
  let ?n = "frame_count (length chunk) W H"
  have st: "starts = map (\<lambda>k. int k * H) [0..<?n]"
    using r Hpos by (simp add: py_range_pos frame_count_def)
  then obtain rest where "starts = 0 # rest" using sne
    by (cases "?n") (auto simp: upt_rec)
  then have W1: "1 \<le> W" using f fft_frames_Cons_Inr by blast
  have npos: "0 < ?n" using st sne by auto
  have lt: "W < int (length chunk)"
  proof (rule ccontr)
    assume "\<not> W < int (length chunk)"
    then have "int (length chunk) - W + H - 1 < H" by simp
    then have "(int (length chunk) - W + H - 1) div H \<le> 0"
      using Hpos by (intro int_div_le_zero) auto
    then show False using npos by (simp add: frame_count_def)
  qed
  have inside: "\<forall>s\<in>set starts. 0 \<le> s \<and> s + W \<le> int (length chunk)"
  proof
    fix s assume "s \<in> set starts"
    then obtain k where k: "k < ?n" "s = int k * H" using st by auto
    have "int ?n * H < (int (length chunk) - W) + H"
      using ceil_div_bounds(2)[OF Hpos, of "int (length chunk) - W"] npos
      by (simp add: frame_count_def)
    moreover have "int k * H + H \<le> int ?n * H"
    proof -
      have "int k + 1 \<le> int ?n" using k(1) by simp
      then have "(int k + 1) * H \<le> int ?n * H" using Hpos by (simp add: mult_right_mono)
      then show ?thesis by (simp add: algebra_simps)
    qed
    ultimately show "0 \<le> s \<and> s + W \<le> int (length chunk)" using k Hpos by auto
  qed
  from fft_frames_inside[OF W1 inside, of bm] f
  have len: "length cols = length starts" and cl: "\<forall>c\<in>set cols. length c = nat (W div 2)"
    by auto
  have shp: "snd (np_shape cols) = length cols" using ne by (cases cols) (auto simp: np_shape_def)
  show ?thesis using W1 Hpos sr lt ne len st cl tm shp by simp
qed

section \<open>The chunk loop\<close>

lemma process_full_audio_Inr:
  assumes "process_full_audio bm signal sr W H cd = Inr (S, T, F)"
  defines "cs \<equiv> py_int (fl (cd * real_of_int sr))"
  shows "0 < cs"
    and "chunk_loop bm signal sr W H cs (chunk_starts (length signal) cs) ([], [], None)
           = Inr (S, T, Some F)"
    and "1 \<le> W" and "0 < H"
proof -
  from assms obtain starts where r: "py_range 0 (int (length signal)) cs = Inr starts"
    and l: "chunk_loop bm signal sr W H cs starts ([], [], None) = Inr (S, T, Some F)"
    by (auto simp: process_full_audio_def Let_def split: sum.splits option.splits)
  have ne: "starts \<noteq> []" using l by auto
  have "cs \<noteq> 0" using r by (auto simp: py_range_def split: if_splits)
  moreover have "\<not> cs < 0"
  proof
    assume "cs < 0"
    then have "py_range 0 (int (length signal)) cs = Inr []" by (intro py_range_neg_empty) auto
    then show False using r ne by simp
  qed
  ultimately show pos: "0 < cs" by simp
  then have st: "starts = chunk_starts (length signal) cs"
    using r by (simp add: py_range_pos chunk_starts_def)
  then show "chunk_loop bm signal sr W H cs (chunk_starts (length signal) cs) ([], [], None)
           = Inr (S, T, Some F)" using l by simp
  from ne obtain i rest where c: "starts = i # rest" by (cases starts) auto
  let ?chunk = "py_slice signal i (i + cs)"
  have ge: "W \<le> int (length ?chunk)"
    using l unfolding c by (auto simp: Let_def split: if_splits)
  then obtain cols tm f where "standard_fft_spectrogram bm ?chunk sr W H = Inr (cols, tm, f)"
    using l unfolding c by (auto simp: Let_def split: sum.splits if_splits)
  from standard_fft_Inr[OF ge this] show "1 \<le> W" and "0 < H" by simp_all
qed

lemma chunk_starts_last:
  assumes "0 < cs" and "m = nat ((int len + cs - 1) div cs)"
  shows "0 < m \<longrightarrow> 0 + (int m - 1) * cs < int len"
proof
  assume "0 < m"
  then have "int m = (int len + cs - 1) div cs" using assms(2) by simp
  then have "int m * cs < int len + cs" using ceil_div_bounds(2)[OF assms(1), of "int len"] by simp
  then show "0 + (int m - 1) * cs < int len" by (simp add: algebra_simps)
qed

section \<open>C2: the shape of the matrix\<close>

lemma py_slice_nonneg:
  assumes "0 \<le> a" and "0 \<le> b"
  shows "py_slice xs a b = take (nat b - nat a) (drop (nat a) xs)"
proof (cases "nat a \<le> length xs")
  case True
  then have "slice_bound (length xs) a = nat a" using assms by (simp add: slice_bound_def)
  moreover have "slice_bound (length xs) b = min (nat b) (length xs)"
    using assms by (simp add: slice_bound_def)
  ultimately have "py_slice xs a b = take (min (nat b) (length xs) - nat a) (drop (nat a) xs)"
    by (simp add: py_slice_def Let_def)
  also have "\<dots> = take (nat b - nat a) (drop (nat a) xs)"
    by (cases "nat b \<le> length xs") (simp_all add: min_def)
  finally show ?thesis .
next
  case False
  then show ?thesis using assms by (simp add: py_slice_def Let_def slice_bound_def)
qed

lemma chunk_count_step:
  assumes "0 < n" and "xs \<noteq> []"
  shows "(length xs + n - 1) div n = Suc ((length (drop n xs) + n - 1) div n)"
proof (cases "n \<le> length xs")
  case True
  then obtain m where m: "length xs = m + n" using le_Suc_ex add.commute by metis
  have "m + n + n - 1 = (m + n - 1) + n" using assms(1) by arith
  then have "(m + n + n - 1) div n = Suc ((m + n - 1) div n)"
    using assms(1) by (simp only: div_add_self2)
  moreover have "length (drop n xs) = m" using m by simp
  ultimately show ?thesis using m by (simp only:)
next
  case False
  have "0 < length xs" using assms(2) by simp
  then have "n \<le> length xs + n - 1" "length xs + n - 1 < 2 * n"
    using False by arith+
  then have "(length xs + n - 1) div n = 1"
    by (intro div_nat_eqI) simp_all
  then show ?thesis using False assms(1) by simp
qed

lemma chunks_of_slices:
  "0 < c \<Longrightarrow>
   map (\<lambda>k. take c (drop (k * c) xs)) [0..<(length xs + c - 1) div c] = chunks_of c xs"
proof (induction c xs rule: chunks_of.induct)
  case (1 n xs)
  show ?case
  proof (cases "xs = []")
    case True
    then show ?thesis using "1.prems" by (simp add: chunks_of.simps)
  next
    case False
    note cnt = chunk_count_step[OF "1.prems" False]
    have IH: "map (\<lambda>k. take n (drop (k * n) (drop n xs))) [0..<(length (drop n xs) + n - 1) div n]
              = chunks_of n (drop n xs)"
      using "1.IH" "1.prems" False by simp
    have sh: "take n (drop (Suc k * n) xs) = take n (drop (k * n) (drop n xs))" for k
      by (simp add: add.commute)
    have "map (\<lambda>k. take n (drop (k * n) xs)) [0..<(length xs + n - 1) div n]
          = take n xs # map (\<lambda>k. take n (drop (Suc k * n) xs)) [0..<(length (drop n xs) + n - 1) div n]"
      unfolding cnt by (simp add: map_upt_Suc del: upt_Suc)
    also have "\<dots> = take n xs # chunks_of n (drop n xs)"
      unfolding sh IH ..
    also have "\<dots> = chunks_of n xs" using False "1.prems" by (simp add: chunks_of.simps[of n xs])
    finally show ?thesis .
  qed
qed

lemma source_chunks:
  assumes "0 < cs"
  shows "map (\<lambda>i. py_slice signal i (i + cs)) (chunk_starts (length signal) cs)
         = chunks_of (nat cs) signal"
proof -
  let ?c = "nat cs"
  have c: "0 < ?c" "int ?c = cs" using assms by simp_all
  have "int (length signal) + cs - 1 = int (length signal + ?c - 1)" using assms by simp
  then have "(int (length signal) + cs - 1) div cs = int ((length signal + ?c - 1) div ?c)"
    using c(2) by (metis zdiv_int)
  then have m: "nat ((int (length signal) + cs - 1) div cs) = (length signal + ?c - 1) div ?c"
    by simp
  have sl: "py_slice signal (0 + int k * cs) (0 + int k * cs + cs) = take ?c (drop (k * ?c) signal)"
    for k
  proof -
    have a: "0 \<le> int k * cs" using assms by simp
    have "nat (int k * cs) = k * ?c" using assms by (simp add: nat_mult_distrib)
    moreover have "nat (int k * cs + cs) - nat (int k * cs) = ?c"
      using a assms by (simp add: nat_add_distrib)
    ultimately show ?thesis using py_slice_nonneg[of "int k * cs" "int k * cs + cs" signal] a assms
      by simp
  qed
  have "map (\<lambda>i. py_slice signal i (i + cs)) (chunk_starts (length signal) cs)
        = map (\<lambda>k. py_slice signal (0 + int k * cs) (0 + int k * cs + cs))
            [0..<(length signal + ?c - 1) div ?c]"
    unfolding chunk_starts_def m by (simp only: map_map comp_def)
  also have "\<dots> = map (\<lambda>k. take ?c (drop (k * ?c) signal)) [0..<(length signal + ?c - 1) div ?c]"
    by (simp only: sl)
  also have "\<dots> = chunks_of ?c signal" by (rule chunks_of_slices[OF c(1)])
  finally show ?thesis .
qed

lemma frame_count_ceiling:
  assumes "0 < H"
  shows "frame_count len W H = nat \<lceil>real_of_int (int len - W) / real_of_int H\<rceil>"
proof -
  let ?a = "int len - W"
  let ?q = "(?a + H - 1) div H"
  have b: "?a \<le> ?q * H" "?q * H < ?a + H" using ceil_div_bounds[OF assms, of ?a] by simp_all
  have Hr: "0 < real_of_int H" using assms by simp
  have "real_of_int ?a \<le> real_of_int (?q * H)" using b(1) by (simp only: of_int_le_iff)
  then have u: "real_of_int ?a / real_of_int H \<le> real_of_int ?q"
    using Hr by (simp add: pos_divide_le_eq)
  have "(?q - 1) * H < ?a" using b(2) by (simp add: algebra_simps)
  then have "real_of_int ((?q - 1) * H) < real_of_int ?a" by (simp only: of_int_less_iff)
  then have l: "real_of_int ?q - 1 < real_of_int ?a / real_of_int H"
    using Hr by (simp add: pos_less_divide_eq)
  have "\<lceil>real_of_int ?a / real_of_int H\<rceil> = ?q" using l u by (intro ceiling_unique) auto
  then show ?thesis by (simp add: frame_count_def)
qed

lemma np_len_cols:
  "\<forall>c\<in>set fs. length c = r \<Longrightarrow> fs \<noteq> [] \<Longrightarrow> np_len fs = r"
  by (cases fs) (auto simp: np_len_def np_shape_def)

lemma chunk_loop_shape:
  assumes "2 \<le> W" and "\<forall>c\<in>set fs. length c = nat (W div 2)"
    and "chunk_loop bm signal sr W H cs xs (fs, ft, fq) = Inr (fs', ft', fq')"
  shows "(\<forall>c\<in>set fs'. length c = nat (W div 2))
         \<and> length fs' = length fs
             + sum_list (map (\<lambda>c. frame_count (length c) W H)
                 (takeWhile (\<lambda>c. W \<le> int (length c)) (map (\<lambda>i. py_slice signal i (i + cs)) xs)))
         \<and> length ft' = length ft
             + sum_list (map (\<lambda>c. frame_count (length c) W H)
                 (takeWhile (\<lambda>c. W \<le> int (length c)) (map (\<lambda>i. py_slice signal i (i + cs)) xs)))"
  using assms(2,3)
proof (induction xs arbitrary: fs ft fq)
  case Nil
  then show ?case by simp
next
  case (Cons i rest)
  let ?chunk = "py_slice signal i (i + cs)"
  show ?case
  proof (cases "int (length ?chunk) < W")
    case True
    then show ?thesis using Cons.prems by (simp add: Let_def)
  next
    case False
    then have le: "W \<le> int (length ?chunk)" by simp
    obtain cols tm f where sf: "standard_fft_spectrogram bm ?chunk sr W H = Inr (cols, tm, f)"
      using Cons.prems(2) False by (auto simp: Let_def split: sum.splits)
    note facts = standard_fft_Inr[OF le sf]
    from facts have cl: "\<forall>c\<in>set cols. length c = nat (W div 2)" and ne: "cols \<noteq> []"
      and n: "length cols = frame_count (length ?chunk) W H"
      and tm: "length tm = frame_count (length ?chunk) W H"
      by simp_all
    have r: "nat (W div 2) \<noteq> 0" using assms(1) by simp
    have stack: "(if np_len fs = 0 then Inr cols else np_hstack fs cols) = Inr (fs @ cols)"
    proof (cases "fs = []")
      case True
      then show ?thesis by (simp add: np_len_def np_shape_def)
    next
      case fne: False
      have "np_len fs = nat (W div 2)" "np_len cols = nat (W div 2)"
        using np_len_cols[OF Cons.prems(1) fne] np_len_cols[OF cl ne] by simp_all
      then show ?thesis using r by (simp add: np_hstack_def)
    qed
    have loop: "chunk_loop bm signal sr W H cs rest
                  (fs @ cols, ft @ map (\<lambda>t. fl (t + fl (real_of_int i / real_of_int sr))) tm, Some f)
                = Inr (fs', ft', fq')"
      using Cons.prems(2) False sf stack by (cases "ft = []") (simp_all add: Let_def)
    have inv: "\<forall>c\<in>set (fs @ cols). length c = nat (W div 2)"
      using Cons.prems(1) cl by auto
    show ?thesis using Cons.IH[OF inv loop] le n tm by simp
  qed
qed

lemma chunk_loop_first:
  assumes "chunk_loop bm signal sr W H cs xs ([], [], None) = Inr (S, T, Some F)"
  shows "\<exists>i rest cols tm f. xs = i # rest
           \<and> W \<le> int (length (py_slice signal i (i + cs)))
           \<and> standard_fft_spectrogram bm (py_slice signal i (i + cs)) sr W H = Inr (cols, tm, f)
           \<and> chunk_loop bm signal sr W H cs rest
                (cols, map (\<lambda>t. fl (t + fl (real_of_int i / real_of_int sr))) tm, Some f)
              = Inr (S, T, Some F)"
proof (cases xs)
  case Nil
  then show ?thesis using assms by simp
next
  case (Cons i rest)
  let ?chunk = "py_slice signal i (i + cs)"
  have le: "W \<le> int (length ?chunk)"
    using assms unfolding Cons by (auto simp: Let_def split: if_splits)
  then obtain cols tm f where sf: "standard_fft_spectrogram bm ?chunk sr W H = Inr (cols, tm, f)"
    using assms unfolding Cons by (auto simp: Let_def split: sum.splits if_splits)
  have "chunk_loop bm signal sr W H cs rest
          (cols, map (\<lambda>t. fl (t + fl (real_of_int i / real_of_int sr))) tm, Some f)
        = Inr (S, T, Some F)"
    using assms le sf unfolding Cons by (simp add: Let_def np_len_def np_shape_def)
  then show ?thesis using Cons le sf by blast
qed

lemma engine_result_nonempty:
  assumes "process_full_audio bm signal sr W H cd = Inr (S, T, F)" and "2 \<le> W"
  shows "S \<noteq> [] \<and> T \<noteq> [] \<and> (\<forall>c\<in>set S. length c = nat (W div 2)) \<and> np_size S \<noteq> 0"
proof -
  let ?cs = "py_int (fl (cd * real_of_int sr))"
  note p = process_full_audio_Inr[OF assms(1)]
  from chunk_loop_first[OF p(2)] obtain i rest cols tm f where
    le: "W \<le> int (length (py_slice signal i (i + ?cs)))"
    and sf: "standard_fft_spectrogram bm (py_slice signal i (i + ?cs)) sr W H = Inr (cols, tm, f)"
    and loop: "chunk_loop bm signal sr W H ?cs rest
                (cols, map (\<lambda>t. fl (t + fl (real_of_int i / real_of_int sr))) tm, Some f)
              = Inr (S, T, Some F)"
    by blast
  note facts = standard_fft_Inr[OF le sf]
  from facts have cl: "\<forall>c\<in>set cols. length c = nat (W div 2)" and ne: "cols \<noteq> []"
    and tm: "length tm = length cols"
    by simp_all
  note sh = chunk_loop_shape[OF assms(2) cl loop]
  have "length cols \<le> length S" "length cols \<le> length T" using sh tm by simp_all
  then have n: "S \<noteq> []" "T \<noteq> []" using ne by auto
  have rows: "\<forall>c\<in>set S. length c = nat (W div 2)" using sh by blast
  obtain c0 S' where S: "S = c0 # S'" using n(1) by (cases S) auto
  then have "np_size S = nat (W div 2) * length S" using rows by (simp add: np_size_def np_shape_def)
  then show ?thesis using n rows assms(2) by simp
qed

text \<open>
  C2, as amended. For every input the engine accepts with a window of at least two
  samples, the matrix has \<open>window_size div 2\<close> rows, and its number of columns (which is
  the length of the time axis) is the sum, over the processed chunks, of the number of
  hops that start before \<open>chunk length - window_size\<close>: the ceiling of
  \<open>(chunk length - window_size) / step_size\<close>, not the floor.
\<close>

theorem matrix_shape:
  assumes "process_full_audio bm signal sr W H cd = Inr (S, T, F)" and "2 \<le> W"
  shows "np_shape S =
           (nat (W div 2),
            (\<Sum>c\<leftarrow>processed_chunks W (py_int (fl (cd * real_of_int sr))) signal.
               nat \<lceil>real_of_int (int (length c) - W) / real_of_int H\<rceil>))
         \<and> length T = snd (np_shape S)"
proof -
  let ?cs = "py_int (fl (cd * real_of_int sr))"
  note p = process_full_audio_Inr[OF assms(1)]
  have sh: "length S = sum_list (map (\<lambda>c. frame_count (length c) W H) (processed_chunks W ?cs signal))
        \<and> length T = sum_list (map (\<lambda>c. frame_count (length c) W H) (processed_chunks W ?cs signal))"
    using chunk_loop_shape[OF assms(2) _ p(2)] source_chunks[OF p(1), of signal]
    by (simp add: processed_chunks_def)
  have fc: "(\<lambda>c::real list. frame_count (length c) W H)
            = (\<lambda>c. nat \<lceil>real_of_int (int (length c) - W) / real_of_int H\<rceil>)"
    using frame_count_ceiling[OF p(4)] by auto
  note ne = engine_result_nonempty[OF assms]
  then obtain c0 rest where S: "S = c0 # rest" by (cases S) auto
  then have "np_shape S = (length c0, length S)" by (simp add: np_shape_def)
  moreover have "length c0 = nat (W div 2)" using ne S by simp
  ultimately show ?thesis using sh fc by simp
qed

theorem matrix_shape_witness:
  "process_full_audio (\<lambda>W s k. 0) (replicate 16 0) 1 4 2 8
     = Inr ([ [0, 0], [0, 0], [0, 0], [0, 0] ], [0, 2, 8, 10], [0, 1 / 4])
   \<and> (2::int) \<le> 4
   \<and> processed_chunks 4 (py_int (fl (8 * real_of_int 1))) (replicate 16 0)
       = [replicate 8 0, replicate 8 0]
   \<and> np_shape [ [0, 0], [0, 0], [0, 0], [0, 0] ] = (2, 4)
   \<and> length [0, 2, 8, 10 :: real] = snd (np_shape [ [0, 0], [0, 0], [0, 0], [0, 0] ])"
proof -
  have e: "process_full_audio (\<lambda>W s k. 0) (replicate 16 0) 1 4 2 8
             = Inr ([ [0, 0], [0, 0], [0, 0], [0, 0] ], [0, 2, 8, 10], [0, 1 / 4])"
    by code_simp
  have w: "(2::int) \<le> 4" by simp
  have c: "processed_chunks 4 (py_int (fl (8 * real_of_int 1))) (replicate 16 0)
             = [replicate 8 0, replicate 8 0]"
    by code_simp
  have n: "(\<Sum>c\<leftarrow>[replicate 8 (0::real), replicate 8 0].
              nat \<lceil>real_of_int (int (length c) - 4) / real_of_int 2\<rceil>) = 4"
    by simp
  from matrix_shape[OF e w] show ?thesis using e w c n by simp
qed

text \<open>
  C2 as stated fails in the count of frames. One chunk of 6 samples with a window of 2
  and a hop of 3 gives the frames at 0 and 3, two columns, where
  \<open>floor ((6 - 2) / 3) = 1\<close>. With a window of one sample the matrix has no rows and
  holds the columns of the last chunk only: 20 samples in chunks of 8 give a time axis of
  10 entries and a matrix of shape (0, 2).
\<close>

theorem matrix_shape_counterexample:
  "process_full_audio (\<lambda>W s k. 0) (replicate 6 0) 1 2 3 6 = Inr ([ [0], [0] ], [0, 3], [0])
   \<and> processed_chunks 2 (py_int (fl (6 * real_of_int 1))) (replicate 6 0) = [replicate 6 0]
   \<and> \<not> (snd (np_shape [ [0], [0] ])
          = (\<Sum>c\<leftarrow>[replicate 6 (0::real)].
               nat \<lfloor>real_of_int (int (length c) - 2) / real_of_int 3\<rfloor>))
   \<and> process_full_audio (\<lambda>W s k. 0) (replicate 20 0) 2 1 2 4
       = Inr ([ [], [] ], [0, 1, 2, 3, 4, 5, 6, 7, 8, 9], [])
   \<and> np_shape [ [], [] ] = (0, 2)"
proof -
  have a: "process_full_audio (\<lambda>W s k. 0) (replicate 6 0) 1 2 3 6 = Inr ([ [0], [0] ], [0, 3], [0])"
    by code_simp
  have b: "processed_chunks 2 (py_int (fl (6 * real_of_int 1))) (replicate 6 0) = [replicate 6 0]"
    by code_simp
  have c: "process_full_audio (\<lambda>W s k. 0) (replicate 20 0) 2 1 2 4
       = Inr ([ [], [] ], [0, 1, 2, 3, 4, 5, 6, 7, 8, 9], [])"
    by code_simp
  show ?thesis using a b c by (simp add: np_shape_def)
qed

section \<open>The time axis along the chunk loop\<close>

lemma acc_time_append:
  "(if length ft = 0 then shifted else ft @ shifted) = ft @ shifted"
  by simp






section \<open>C3 and C6: signals the engine cannot analyse\<close>

lemma length_py_slice_le: "length (py_slice xs a b) \<le> length xs"
  by (simp add: py_slice_def Let_def)

text \<open>
  Whatever the engine returns, it returns for a window of at least one sample, a positive
  hop and a signal longer than one window. On every other input it raises.
\<close>

lemma engine_accepts_only:
  assumes "process_full_audio bm signal sr W H cd = Inr (S, T, F)"
  shows "1 \<le> W \<and> 0 < H \<and> W < int (length signal)"
proof -
  let ?cs = "py_int (fl (cd * real_of_int sr))"
  note p = process_full_audio_Inr[OF assms]
  from chunk_loop_first[OF p(2)] obtain i cols tm f where
    le: "W \<le> int (length (py_slice signal i (i + ?cs)))"
    and sf: "standard_fft_spectrogram bm (py_slice signal i (i + ?cs)) sr W H = Inr (cols, tm, f)"
    by blast
  from standard_fft_Inr[OF le sf] have "W < int (length (py_slice signal i (i + ?cs)))" by simp
  moreover have "length (py_slice signal i (i + ?cs)) \<le> length signal"
    by (rule length_py_slice_le)
  ultimately show ?thesis using p(3,4) by simp
qed

lemma invalid_input_raises:
  assumes "signal = [] \<or> int (length signal) \<le> W \<or> W \<le> 0 \<or> H \<le> 0"
  shows "\<exists>e. process_full_audio bm signal sr W H cd = Inl e"
proof (cases "process_full_audio bm signal sr W H cd")
  case (Inl e)
  then show ?thesis by blast
next
  case (Inr r)
  obtain S T F where "r = (S, T, F)" by (cases r) auto
  with Inr engine_accepts_only[of bm signal sr W H cd S T F] assms show ?thesis by auto
qed

lemma short_signal_unbound:
  assumes "int (length signal) < W" and "0 < cs"
  shows "chunk_loop bm signal sr W H cs (chunk_starts (length signal) cs) ([], [], None)
         = Inr ([], [], None)"
proof (cases "chunk_starts (length signal) cs")
  case Nil
  then show ?thesis by simp
next
  case (Cons i rest)
  have "int (length (py_slice signal i (i + cs))) < W"
    using length_py_slice_le[of signal i "i + cs"] assms(1) by simp
  then show ?thesis unfolding Cons by (simp add: Let_def)
qed

text \<open>
  C3: a signal of exactly \<open>window_size\<close> samples is claimed to yield at least one frame.
  With the parameters of \<open>load_audio\<close>, every signal of exactly 1024 samples passes the
  test \<open>len(chunk) < window_size\<close>, gets no frame from \<open>range(0, 0, 512)\<close>, and the engine
  raises IndexError at \<open>spectrogram.shape[1]\<close>.
\<close>

theorem exact_window_raises:
  assumes "length signal = 1024"
  shows "process_full_audio bm signal 44100 1024 512 4 = Inl IndexError"
proof -
  have s: "py_slice signal 0 176400 = signal"
    using assms by (simp add: py_slice_def slice_bound_def)
  show ?thesis
    using assms
    by (simp add: process_full_audio_def py_int_def py_range_def s standard_fft_spectrogram_def)
qed

theorem exact_window_raises_witness:
  "length (replicate 1024 (0::real)) = 1024
   \<and> process_full_audio (\<lambda>W s k. 0) (replicate 1024 0) 44100 1024 512 4 = Inl IndexError"
  using exact_window_raises[of "replicate 1024 0" "\<lambda>W s k. 0"] by simp

text \<open>
  C6: the engine is claimed to report an analysis failure. On every signal shorter than
  one window, the empty one included, the loop of \<open>process_full_audio\<close> analyses no chunk
  and the \<open>return\<close> reads \<open>freq\<close> before any assignment: UnboundLocalError. \<open>load_audio\<close>
  does not catch it, so the message behind its test for an empty result is not shown.
\<close>

theorem short_signal_escapes:
  assumes "length signal < 1024" and "file_path \<noteq> []"
  shows "process_full_audio bm signal 44100 1024 512 4 = Inl UnboundLocalError
         \<and> load_audio plot bm file_path signal 44100 mixer_ok s
             = (s\<lparr>audio_file := Some file_path\<rparr>, [], Some UnboundLocalError)"
proof -
  have cs: "py_int 176400 = 176400" by (simp add: py_int_def)
  have r: "py_range 0 (int (length signal)) 176400 = Inr (chunk_starts (length signal) 176400)"
    by (simp add: py_range_def chunk_starts_def)
  have l: "chunk_loop bm signal 44100 1024 512 176400 (chunk_starts (length signal) 176400)
             ([], [], None) = Inr ([], [], None)"
    using assms(1) by (intro short_signal_unbound) simp_all
  have e: "process_full_audio bm signal 44100 1024 512 4 = Inl UnboundLocalError"
    by (simp add: process_full_audio_def Let_def cs r l)
  then show ?thesis using assms(2) by (simp add: load_audio_def load_audio_with_def)
qed

theorem short_signal_escapes_witness:
  "length ([]::real list) < 1024 \<and> ''short.wav'' \<noteq> []
   \<and> process_full_audio (\<lambda>W s k. 0) [] 44100 1024 512 4 = Inl UnboundLocalError
   \<and> load_audio (\<lambda>m t f w. (\<lparr>img_width = 1200, img_height = 600\<rparr>,
                              \<lparr>x0 = 1 / 8, x1 = 5 / 8, width = 1 / 2\<rparr>))
         (\<lambda>W s k. 0) ''short.wav'' [] 44100 True init_session
       = (init_session\<lparr>audio_file := Some ''short.wav''\<rparr>, [], Some UnboundLocalError)"
proof -
  have a: "length ([]::real list) < 1024" "''short.wav'' \<noteq> []" by simp_all
  from short_signal_escapes[OF a] show ?thesis using a by blast
qed

section \<open>C5: the session after a failed load\<close>

text \<open>The test of \<open>load_audio\<close> for an empty result never fires.\<close>

lemma load_never_reports_empty:
  "MessageCritical SpectrogramFailed
     \<notin> set (fst (snd (load_audio plot bm file_path audio_data sample_rate mixer_ok s)))"
proof (cases "process_full_audio bm audio_data sample_rate 1024 512 4")
  case (Inl e)
  then show ?thesis by (simp add: load_audio_def load_audio_with_def)
next
  case (Inr r)
  obtain sp t f where r: "r = (sp, t, f)" by (cases r) auto
  have "np_size sp \<noteq> 0" "t \<noteq> []"
    using engine_result_nonempty[of bm audio_data sample_rate 1024 512 4 sp t f] Inr r by simp_all
  then show ?thesis using Inr r
    by (simp add: load_audio_def load_audio_with_def Let_def split: option.splits prod.splits)
qed




section \<open>C4: the zoom factor\<close>

lemma zoom_step_bounds:
  assumes "5 / 12 < zoom_factor s" and "zoom_factor s \<le> 5"
  shows "5 / 12 < zoom_factor (fst (zoom_in scaled s)) \<and> zoom_factor (fst (zoom_in scaled s)) \<le> 5"
    and "5 / 12 < zoom_factor (fst (zoom_out scaled s)) \<and> zoom_factor (fst (zoom_out scaled s)) \<le> 5"
  using assms by (auto simp: zoom_in_def zoom_out_def Let_def min_def)

text \<open>
  What the guards do keep: from a factor in the interval from 5/12 (excluded) to 5, every
  run of zoom actions stays there. The upper bound is the clamp of \<open>zoom_in\<close>; the lower
  one is what the test \<open>zoom_factor > 0.5\<close> before the division leaves.
\<close>

lemma zoom_run_bounds:
  "5 / 12 < zoom_factor s \<Longrightarrow> zoom_factor s \<le> 5 \<Longrightarrow>
   5 / 12 < zoom_factor (zoom_run scaled acts s) \<and> zoom_factor (zoom_run scaled acts s) \<le> 5"
proof (induction acts arbitrary: s)
  case Nil
  then show ?case by simp
next
  case (Cons a acts)
  then show ?case using zoom_step_bounds[of s scaled] by (cases a) auto
qed

text \<open>
  C4: the zoom factor is claimed to stay within [0.5, 5.0]. Four zoom-out actions from
  the default factor 1.0, with an image loaded, leave it at \<open>1 / 1.2 ^ 4 = 625 / 1296\<close>,
  below 0.5: \<open>zoom_out\<close> tests the factor before it divides and does not clamp the result,
  as \<open>zoom_in\<close> does with \<open>min\<close>.
\<close>

theorem zoom_out_below_half:
  "zoom_factor (zoom_run scaled [ZoomOut, ZoomOut, ZoomOut, ZoomOut]
      (init_session\<lparr>spectrogram_image := Some img\<rparr>)) = 625 / 1296
   \<and> zoom_factor (zoom_run scaled [ZoomOut, ZoomOut, ZoomOut, ZoomOut]
      (init_session\<lparr>spectrogram_image := Some img\<rparr>)) < 0.5"
  by (simp add: zoom_out_def init_session_def Let_def)

section \<open>C9: the handlers without a loaded file\<close>

text \<open>
  C9, as amended. When no file is loaded, play/pause changes nothing and shows the error
  message; seek changes nothing and shows nothing.
\<close>

theorem no_file_handlers:
  assumes "\<not> file_loaded s"
  shows "toggle_playback now get_pos mixer_ok s = (s, [MessageCritical NeedFile], None)
         \<and> seek_position scaled scroll_width val now now' busy mixer_ok s = (s, [], None)"
  using assms by (simp add: toggle_playback_def seek_position_def)

theorem no_file_handlers_witness:
  "\<not> file_loaded init_session
   \<and> toggle_playback 0 (- 1) True init_session = (init_session, [MessageCritical NeedFile], None)
   \<and> seek_position (\<lambda>img w h. (w, h)) 800 500 0 0 True True init_session
       = (init_session, [], None)"
proof -
  have n: "\<not> file_loaded init_session" by (simp add: file_loaded_def init_session_def)
  show ?thesis using n no_file_handlers[OF n] by simp
qed

text \<open>
  C9 as stated fails for seek: on the initial session, where no file is loaded, moving
  the slider to 500 shows no message at all.
\<close>

theorem seek_silent_counterexample:
  "\<not> file_loaded init_session
   \<and> fst (snd (seek_position (\<lambda>img w h. (w, h)) 800 500 0 0 True True init_session)) = []"
  by (simp add: file_loaded_def init_session_def seek_position_def)

section \<open>C8: the smoothing buffer\<close>

lemma fst_show_position:
  "fst (show_position scaled scroll_width s) = s\<lparr>log_counter := log_counter s + 1\<rparr>"
  by (auto simp: show_position_def Let_def split: option.splits prod.splits)

lemma smoothing_tick:
  assumes "is_playing s" and "spectrogram s \<noteq> None" and "spectrogram_image s \<noteq> None"
    and "fl (now - play_start_time s) \<le> total_duration s"
  shows "fst (update_play_position scaled scroll_width now True s)
         = s\<lparr>play_position :=
                fl (py_sum (deque_append (fl (now - play_start_time s)) (position_buffer s))
                    / real (length (deque_append (fl (now - play_start_time s))
                                      (position_buffer s)))),
              position_buffer := deque_append (fl (now - play_start_time s)) (position_buffer s),
              log_counter := log_counter s + 1\<rparr>"
  using assms by (simp add: update_play_position_def Let_def fst_show_position)











section \<open>C7: the marker's pixel column\<close>

lemma min_floor_int:
  "min \<lfloor>v::real\<rfloor> k = \<lfloor>min v (real_of_int k)\<rfloor>"
proof (cases "v \<le> real_of_int k")
  case True
  then have "\<lfloor>v\<rfloor> \<le> k" by (simp add: floor_le_iff)
  then show ?thesis using True by (simp add: min_def)
next
  case False
  then have "k \<le> \<lfloor>v\<rfloor>" by (simp add: le_floor_iff)
  then show ?thesis using False by (simp add: min_def)
qed

lemma marker_x_pos_floor:
  assumes "1 \<le> pw"
  shows "marker_x_pos p max_time da pw
         = \<lfloor>min (max (fl (fl (fl (p / max_time) * fl (real_of_int pw * width da))
                            + fl (real_of_int pw * x0 da))) 0)
              (real_of_int pw - 1)\<rfloor>"
proof -
  let ?v = "fl (fl (fl (p / max_time) * fl (real_of_int pw * width da))
                + fl (real_of_int pw * x0 da))"
  have m: "marker_x_pos p max_time da pw = min (max (py_int ?v) 0) (pw - 1)"
    by (simp add: marker_x_pos_def Let_def)
  show ?thesis
  proof (cases "0 \<le> ?v")
    case True
    then have "max (py_int ?v) 0 = \<lfloor>?v\<rfloor>" by (simp add: py_int_def)
    then have "marker_x_pos p max_time da pw = \<lfloor>min ?v (real_of_int (pw - 1))\<rfloor>"
      using m by (simp only: min_floor_int)
    then show ?thesis using True by (simp add: max_def)
  next
    case False
    then have "\<lceil>?v\<rceil> \<le> 0" by (simp add: ceiling_le_iff)
    then have "max (py_int ?v) 0 = 0" using False by (simp add: py_int_def)
    then have "marker_x_pos p max_time da pw = 0" using m assms by simp
    moreover have "max ?v 0 = 0" using False by simp
    ultimately show ?thesis using assms by simp
  qed
qed

lemma rounded_mult:
  assumes "0 \<le> b" and "0 \<le> d" and "rounded j a b" and "rounded k c d"
  shows "rounded (j + k) (a * c) (b * d)"
proof -
  have a: "0 \<le> a" and c: "0 \<le> c"
    using assms rounded_nonneg by blast+
  have u: "0 \<le> (1 - unit_roundoff) ^ n" "0 \<le> (1 + unit_roundoff) ^ n" for n
    using unit_roundoff_bounds by simp_all
  have "(b * (1 - unit_roundoff) ^ j) * (d * (1 - unit_roundoff) ^ k) \<le> a * c"
    using assms a c u by (intro mult_mono) (simp_all add: rounded_def)
  moreover have "a * c \<le> (b * (1 + unit_roundoff) ^ j) * (d * (1 + unit_roundoff) ^ k)"
    using assms a c u by (intro mult_mono) (simp_all add: rounded_def)
  ultimately show ?thesis by (simp add: rounded_def power_add mult_ac)
qed

text \<open>The double-precision value the source truncates is close to the exact formula.\<close>

lemma marker_value_close:
  assumes "0 \<le> p" and "0 < mt" and "0 \<le> x0 da" and "0 \<le> width da" and "0 \<le> pw"
  shows "\<bar>fl (fl (fl (p / mt) * fl (real_of_int pw * width da)) + fl (real_of_int pw * x0 da))
          - marker_formula p mt da pw\<bar>
         \<le> marker_formula p mt da pw * (7 * unit_roundoff)"
proof -
  let ?q = "p / mt" and ?w = "real_of_int pw * width da" and ?x = "real_of_int pw * x0 da"
  have q: "0 \<le> ?q" and w: "0 \<le> ?w" and x: "0 \<le> ?x" using assms by simp_all
  have rq: "rounded 1 (fl ?q) ?q" using rounded_fl[OF q rounded_refl] by simp
  have rw: "rounded 1 (fl ?w) ?w" using rounded_fl[OF w rounded_refl] by simp
  have rx: "rounded 1 (fl ?x) ?x" using rounded_fl[OF x rounded_refl] by simp
  have qw: "0 \<le> ?q * ?w" using q w by (rule mult_nonneg_nonneg)
  from rounded_mult[OF q w rq rw] have "rounded 2 (fl ?q * fl ?w) (?q * ?w)"
    by (simp add: eval_nat_numeral)
  from rounded_fl[OF qw this] have 3: "rounded 3 (fl (fl ?q * fl ?w)) (?q * ?w)"
    by (simp add: eval_nat_numeral)
  from rounded_mono[OF x _ rx, of 3] have "rounded 3 (fl ?x) ?x" by simp
  from rounded_add[OF 3 this] have s: "rounded 3 (fl (fl ?q * fl ?w) + fl ?x) (?q * ?w + ?x)" .
  have e: "0 \<le> ?q * ?w + ?x" using qw x by simp
  from rounded_fl[OF e s] have "rounded 4 (fl (fl (fl ?q * fl ?w) + fl ?x)) (?q * ?w + ?x)"
    by (simp add: eval_nat_numeral)
  from rounded_error[OF e _ this]
  show ?thesis by (simp add: marker_formula_def algebra_simps)
qed

lemma tick_marker:
  assumes "is_playing s" and "spectrogram s \<noteq> None" and "spectrogram_image s = Some img"
    and "fl (now - play_start_time s) \<le> total_duration s"
    and "time s = Some T" and "T \<noteq> []" and "0 < last T" and "data_area s = Some da"
    and "scaled img (py_int (fl (real_of_int (image_width s) * zoom_factor s)))
           (py_int (fl (real_of_int (img_height img) * zoom_factor s))) = (pw, ph)"
  shows "MarkerLine (marker_x_pos
            (play_position (fst (update_play_position scaled scroll_width now True s)))
            (last T) da pw)
         \<in> set (fst (snd (update_play_position scaled scroll_width now True s)))"
  using assms
  by (simp add: update_play_position_def show_position_def Let_def split: prod.splits)

text \<open>
  C7 as stated fails where the value is not an integer: for \<open>p = 1\<close>, \<open>maxTime = 4\<close>,
  \<open>x0 = 1/8\<close>, \<open>width = 1/2\<close> and a pixmap 1001 pixels wide the formula gives 250.25
  (no operation rounds here), the column is 250.
\<close>

theorem marker_column_counterexample:
  "marker_x_pos 1 4 \<lparr>x0 = 1 / 8, x1 = 5 / 8, width = 1 / 2\<rparr> 1001 = 250
   \<and> marker_formula 1 4 \<lparr>x0 = 1 / 8, x1 = 5 / 8, width = 1 / 2\<rparr> 1001 = 1001 / 4
   \<and> \<not> (real_of_int (marker_x_pos 1 4 \<lparr>x0 = 1 / 8, x1 = 5 / 8, width = 1 / 2\<rparr> 1001)
          = min (max (marker_formula 1 4 \<lparr>x0 = 1 / 8, x1 = 5 / 8, width = 1 / 2\<rparr> 1001) 0)
              (1001 - 1))"
proof -
  have a: "marker_x_pos 1 4 \<lparr>x0 = 1 / 8, x1 = 5 / 8, width = 1 / 2\<rparr> 1001 = 250"
    by code_simp
  have b: "marker_formula 1 4 \<lparr>x0 = 1 / 8, x1 = 5 / 8, width = 1 / 2\<rparr> 1001 = 1001 / 4"
    by (simp add: marker_formula_def)
  show ?thesis unfolding a b by simp
qed

text \<open>
  C7, as the code has it. On a tick that draws the marker (a positive last time value
  \<open>maxTime\<close>, a data area \<open>(x0, width)\<close>, a scaled pixmap of width \<open>W' \<ge> 1\<close>), the drawn
  column is the integer part of the double \<open>v\<close> that the source computes for
  \<open>(p / maxTime) * (W' * width) + W' * x0\<close>, each operation rounded, clamped to
  \<open>[0, W' - 1]\<close>, where \<open>p\<close> is the position the tick has just computed: the source
  truncates with \<open>int\<close> before it clamps, which for \<open>W' \<ge> 1\<close> is the floor of the clamped
  value. For non-negative \<open>p\<close>, \<open>x0\<close> and \<open>width\<close> the double \<open>v\<close> is within a relative
  error of \<open>7 * 2 ^ - 53\<close> of the exact value of the formula.
\<close>

theorem marker_column:
  assumes "is_playing s" and "spectrogram s \<noteq> None" and "spectrogram_image s = Some img"
    and "fl (now - play_start_time s) \<le> total_duration s"
    and "time s = Some T" and "T \<noteq> []" and "0 < last T" and "data_area s = Some da"
    and "scaled img (py_int (fl (real_of_int (image_width s) * zoom_factor s)))
           (py_int (fl (real_of_int (img_height img) * zoom_factor s))) = (pw, ph)"
    and "1 \<le> pw"
    and "p = play_position (fst (update_play_position scaled scroll_width now True s))"
    and "v = fl (fl (fl (p / last T) * fl (real_of_int pw * width da))
                 + fl (real_of_int pw * x0 da))"
  shows "MarkerLine \<lfloor>min (max v 0) (real_of_int pw - 1)\<rfloor>
           \<in> set (fst (snd (update_play_position scaled scroll_width now True s)))
         \<and> (0 \<le> p \<and> 0 \<le> x0 da \<and> 0 \<le> width da \<longrightarrow>
              \<bar>v - marker_formula p (last T) da pw\<bar>
              \<le> marker_formula p (last T) da pw * (7 * unit_roundoff))"
proof -
  have "MarkerLine (marker_x_pos p (last T) da pw)
         \<in> set (fst (snd (update_play_position scaled scroll_width now True s)))"
    unfolding assms(11) using assms(1-9) by (rule tick_marker)
  then have "MarkerLine \<lfloor>min (max v 0) (real_of_int pw - 1)\<rfloor>
           \<in> set (fst (snd (update_play_position scaled scroll_width now True s)))"
    unfolding assms(12) by (simp only: marker_x_pos_floor[OF assms(10)])
  moreover have "0 \<le> p \<and> 0 \<le> x0 da \<and> 0 \<le> width da \<longrightarrow>
              \<bar>v - marker_formula p (last T) da pw\<bar>
              \<le> marker_formula p (last T) da pw * (7 * unit_roundoff)"
    unfolding assms(12) using marker_value_close[of p "last T" da pw] assms(7,10) by simp
  ultimately show ?thesis by blast
qed

theorem marker_column_witness:
  "is_playing playing_session \<and> spectrogram playing_session \<noteq> None
   \<and> spectrogram_image playing_session = Some \<lparr>img_width = 1200, img_height = 600\<rparr>
   \<and> fl (7 / 2 - play_start_time playing_session) \<le> total_duration playing_session
   \<and> time playing_session = Some [0, 10] \<and> [0, 10 :: real] \<noteq> [] \<and> 0 < last [0, 10 :: real]
   \<and> data_area playing_session = Some \<lparr>x0 = 1 / 8, x1 = 5 / 8, width = 1 / 2\<rparr>
   \<and> (1::int) \<le> 800
   \<and> play_position (fst (update_play_position (\<lambda>img w h. (w, h)) 800 (7 / 2) True
         playing_session)) = 5 / 2
   \<and> fl (fl (fl (5 / 2 / last [0, 10]) * fl (real_of_int 800 * (1 / 2)))
           + fl (real_of_int 800 * (1 / 8))) = 200
   \<and> MarkerLine 200
       \<in> set (fst (snd (update_play_position (\<lambda>img w h. (w, h)) 800 (7 / 2) True
                  playing_session)))
   \<and> marker_formula (5 / 2) (last [0, 10]) \<lparr>x0 = 1 / 8, x1 = 5 / 8, width = 1 / 2\<rparr> 800
       = 200"
proof -
  let ?img = "\<lparr>img_width = 1200, img_height = 600\<rparr>"
  let ?da = "\<lparr>x0 = 1 / 8, x1 = 5 / 8, width = 1 / 2\<rparr>"
  have t: "fl (7 / 2 - play_start_time playing_session) = 7 / 2" by code_simp
  have a: "is_playing playing_session" "spectrogram playing_session \<noteq> None"
    "spectrogram_image playing_session = Some ?img"
    "fl (7 / 2 - play_start_time playing_session) \<le> total_duration playing_session"
    "time playing_session = Some [0, 10]" "[0, 10 :: real] \<noteq> []" "0 < last [0, 10 :: real]"
    "data_area playing_session = Some ?da"
    unfolding t by (simp_all add: playing_session_def)
  have sc: "(\<lambda>img w h. (w, h)) ?img
              (py_int (fl (real_of_int (image_width playing_session)
                           * zoom_factor playing_session)))
              (py_int (fl (real_of_int (img_height ?img) * zoom_factor playing_session)))
            = (800, 600)"
    by code_simp
  have w: "(1::int) \<le> 800" by simp
  have t2: "fl (7 / 2) = 7 / 2" by code_simp
  have m: "fl (py_sum [2, 2, 2, 3, 7 / 2] / 5) = 5 / 2" by code_simp
  have p: "play_position (fst (update_play_position (\<lambda>img w h. (w, h)) 800 (7 / 2) True
         playing_session)) = 5 / 2"
    using smoothing_tick[OF a(1) a(2) _ a(4), of "\<lambda>img w h. (w, h)" 800] a(3)
    by (simp add: t2 m playing_session_def deque_append_def maxlen_def)
  have v: "fl (fl (fl (5 / 2 / last [0, 10]) * fl (real_of_int 800 * (1 / 2)))
               + fl (real_of_int 800 * (1 / 8))) = 200"
    by code_simp
  have f: "marker_formula (5 / 2) (last [0, 10]) ?da 800 = 200"
    by (simp add: marker_formula_def)
  from marker_column[where scaled = "\<lambda>img w h. (w, h)" and scroll_width = 800
      and v = "fl (fl (fl (5 / 2 / last [0, 10]) * fl (real_of_int 800 * (1 / 2)))
                   + fl (real_of_int 800 * (1 / 8)))", OF a sc w p [symmetric]]
  show ?thesis using a w p v f by simp
qed

section \<open>C10: the duration and the position\<close>



text \<open>The load leaves the position and the smoothing buffer as they were.\<close>

lemma load_keeps_position:
  "play_position (fst (load_audio plot bm file_path audio_data sample_rate mixer_ok s))
     = play_position s
   \<and> position_buffer (fst (load_audio plot bm file_path audio_data sample_rate mixer_ok s))
     = position_buffer s"
  by (auto simp: load_audio_def load_audio_with_def Let_def split: sum.splits option.splits prod.splits)












end
